theory Spec2Isabelle
  imports Main "HOL-Library.AList"
begin

section \<open>Python built-ins used by the protocol library\<close>

text \<open>
  A Python \<open>str\<close> is modelled as a \<open>string\<close>, each \<open>char\<close> standing for the code
  point of the same number (0 to 255); \<open>length\<close> is Python's \<open>len\<close>. The character
  classes below are Python's on that range.
\<close>

datatype exn = ValueError | KeyError | IndexError | OSError

definition isspace :: "char \<Rightarrow> bool" where
  \<comment> \<open>\<open>str.isspace\<close>, the class \<open>str.strip()\<close> removes: 09-0D, 1C-1F, 20, 85, A0\<close>
  "isspace c = (let n = (of_char c :: nat) in
     (9 \<le> n \<and> n \<le> 13) \<or> (28 \<le> n \<and> n \<le> 31) \<or> n = 32 \<or> n = 133 \<or> n = 160)"

definition isdecimal :: "char \<Rightarrow> bool" where
  \<comment> \<open>the digits \<open>int()\<close> reads: 0 to 9\<close>
  "isdecimal c = (let n = (of_char c :: nat) in 48 \<le> n \<and> n \<le> 57)"

definition isdigit :: "char \<Rightarrow> bool" where
  \<comment> \<open>\<open>str.isdigit\<close> on one character: 0 to 9 and the superscripts B2, B3, B9\<close>
  "isdigit c = (let n = (of_char c :: nat) in
     (48 \<le> n \<and> n \<le> 57) \<or> n = 178 \<or> n = 179 \<or> n = 185)"

definition str_isdigit :: "string \<Rightarrow> bool" where
  \<comment> \<open>\<open>s.isdigit()\<close>: every character is a digit and there is at least one\<close>
  "str_isdigit s = (s \<noteq> [] \<and> list_all isdigit s)"

definition strip :: "string \<Rightarrow> string" where
  \<comment> \<open>\<open>s.strip()\<close>: whitespace removed at both ends\<close>
  "strip s = dropWhile isspace (rev (dropWhile isspace (rev s)))"

definition ljust :: "nat \<Rightarrow> string \<Rightarrow> string" where
  \<comment> \<open>\<open>s.ljust(w)\<close>: spaces appended up to width \<open>w\<close>\<close>
  "ljust w s = s @ replicate (w - length s) CHR '' ''"

definition zfill :: "nat \<Rightarrow> string \<Rightarrow> string" where
  \<comment> \<open>\<open>s.zfill(w)\<close>: zeros inserted on the left, after a leading sign\<close>
  "zfill w s =
     (case s of
        [] \<Rightarrow> replicate w CHR ''0''
      | c # cs \<Rightarrow>
          if c = CHR ''+'' \<or> c = CHR ''-''
          then c # replicate (w - length s) CHR ''0'' @ cs
          else replicate (w - length s) CHR ''0'' @ s)"

definition digit_char :: "nat \<Rightarrow> char" where
  "digit_char d = char_of (48 + d)"

definition digit_val :: "char \<Rightarrow> nat" where
  "digit_val c = of_char c - 48"

function str_nat :: "nat \<Rightarrow> string" where
  "str_nat n = (if n < 10 then [digit_char n] else str_nat (n div 10) @ [digit_char (n mod 10)])"
  by pat_completeness auto
termination
  by (relation "measure id") auto

declare str_nat.simps [simp del]

definition str_int :: "int \<Rightarrow> string" where
  \<comment> \<open>\<open>str(i)\<close> for an integer\<close>
  "str_int i = (if i < 0 then CHR ''-'' # str_nat (nat (- i)) else str_nat (nat i))"

text \<open>
  \<open>int(s)\<close> on a string: whitespace is removed at both ends (here the class is 09-0D, 20,
  85, A0: the separators 1C-1F are not skipped), then an optional sign, then decimal digits
  with single underscores allowed between digits. A literal of more than 4300 digits is
  refused (the interpreter's default limit: leading zeros count, underscores, the sign and
  the surrounding whitespace do not). \<open>None\<close> stands for the ValueError.
\<close>

definition int_space :: "char \<Rightarrow> bool" where
  "int_space c = (let n = (of_char c :: nat) in
     (9 \<le> n \<and> n \<le> 13) \<or> n = 32 \<or> n = 133 \<or> n = 160)"

fun int_digits :: "nat \<Rightarrow> string \<Rightarrow> nat option"
  and int_rest :: "nat \<Rightarrow> string \<Rightarrow> nat option" where
  "int_digits acc [] = None"
| "int_digits acc (c # cs) =
     (if isdecimal c then int_rest (10 * acc + digit_val c) cs else None)"
| "int_rest acc [] = Some acc"
| "int_rest acc (c # cs) =
     (if c = CHR ''_'' then int_digits acc cs
      else if isdecimal c then int_rest (10 * acc + digit_val c) cs
      else None)"

definition int_max_str_digits :: nat where
  "int_max_str_digits = 4300"

definition int_literal :: "string \<Rightarrow> nat option" where
  \<comment> \<open>the digits after the sign: counted against the limit, then read\<close>
  "int_literal ds =
     (if int_max_str_digits < length (filter isdecimal ds) then None else int_digits 0 ds)"

definition py_int :: "string \<Rightarrow> int option" where
  "py_int s =
     (case dropWhile int_space (rev (dropWhile int_space (rev s))) of
        [] \<Rightarrow> None
      | c # cs \<Rightarrow>
          if c = CHR ''-'' then map_option (\<lambda>n. - int n) (int_literal cs)
          else if c = CHR ''+'' then map_option int (int_literal cs)
          else map_option int (int_literal (c # cs)))"

definition split_on :: "char \<Rightarrow> string \<Rightarrow> string list" where
  \<comment> \<open>\<open>s.split(sep)\<close> for a one-character separator: always at least one field\<close>
  "split_on sep s =
     foldr (\<lambda>c fs. if c = sep then [] # fs else (c # hd fs) # tl fs) s [[]]"

definition join_on :: "string \<Rightarrow> string list \<Rightarrow> string" where
  \<comment> \<open>\<open>sep.join(fields)\<close>\<close>
  "join_on sep fs = (case fs of [] \<Rightarrow> [] | f # rest \<Rightarrow> f @ concat (map (\<lambda>g. sep @ g) rest))"

section \<open>chatlib: the frame codec\<close>

definition CMD_FIELD_LENGTH :: nat where "CMD_FIELD_LENGTH = 16"
definition LENGTH_FIELD_LENGTH :: nat where "LENGTH_FIELD_LENGTH = 4"
definition MAX_DATA_LENGTH :: nat where "MAX_DATA_LENGTH = 10 ^ LENGTH_FIELD_LENGTH - 1"
definition MSG_HEADER_LENGTH :: nat where
  "MSG_HEADER_LENGTH = CMD_FIELD_LENGTH + 1 + LENGTH_FIELD_LENGTH + 1"
definition DELIMITER :: char where "DELIMITER = CHR ''|''"
definition DATA_DELIMITER :: char where "DATA_DELIMITER = CHR ''#''"

text \<open>
  \<open>build_message\<close> takes two strings, so the \<open>isinstance\<close> test of the source never fires;
  \<open>None\<close> is its error sentinel.
\<close>

definition build_message :: "string \<Rightarrow> string \<Rightarrow> string option" where
  "build_message cmd data =
     (if length cmd > CMD_FIELD_LENGTH \<or> length data > MAX_DATA_LENGTH then None
      else if DELIMITER \<in> set cmd \<or> DATA_DELIMITER \<in> set cmd then None
      else
        let padded_cmd = ljust CMD_FIELD_LENGTH cmd;
            length_str = zfill LENGTH_FIELD_LENGTH (str_int (int (length data)))
        in Some (padded_cmd @ [DELIMITER] @ length_str @ [DELIMITER] @ data))"

text \<open>
  \<open>parse_message\<close> returns the pair \<open>(None, None)\<close> (here \<open>Inr None\<close>), a pair of strings
  (\<open>Inr (Some (cmd, data))\<close>), or leaves by the ValueError of \<open>int\<close> (\<open>Inl ValueError\<close>).
\<close>

definition parse_message :: "string \<Rightarrow> exn + (string \<times> string) option" where
  "parse_message message =
     (if length message < MSG_HEADER_LENGTH then Inr None
      else if message ! CMD_FIELD_LENGTH \<noteq> DELIMITER then Inr None
      else if message ! (CMD_FIELD_LENGTH + 1 + LENGTH_FIELD_LENGTH) \<noteq> DELIMITER then Inr None
      else
        let cmd = strip (take CMD_FIELD_LENGTH message);
            length_str = take LENGTH_FIELD_LENGTH (drop (CMD_FIELD_LENGTH + 1) message)
        in if \<not> str_isdigit length_str then Inr None
           else
             (case py_int length_str of
                None \<Rightarrow> Inl ValueError
              | Some msg_length \<Rightarrow>
                  (let data = take (nat msg_length) (drop MSG_HEADER_LENGTH message)
                   in if int (length data) \<noteq> msg_length then Inr None
                      else Inr (Some (cmd, data)))))"

definition split_data :: "string \<Rightarrow> nat \<Rightarrow> string list option" where
  "split_data msg expected_fields =
     (if msg = [] then (if expected_fields = 1 then Some [[]] else None)
      else
        let fields = split_on DATA_DELIMITER msg
        in if length fields = expected_fields then Some fields else None)"

definition join_data :: "string list \<Rightarrow> string" where
  "join_data msg_fields = join_on [DATA_DELIMITER] msg_fields"

definition login_msg :: string where "login_msg = ''LOGIN''"
definition logout_msg :: string where "logout_msg = ''LOGOUT''"
definition getscore_msg :: string where "getscore_msg = ''MY_SCORE''"
definition getlogged_msg :: string where "getlogged_msg = ''LOGGED''"
definition gethighscore_msg :: string where "gethighscore_msg = ''HIGHSCORE''"
definition getquestion_msg :: string where "getquestion_msg = ''GET_QUESTION''"
definition sendanswer_msg :: string where "sendanswer_msg = ''SEND_ANSWER''"

definition login_ok_msg :: string where "login_ok_msg = ''LOGIN_OK''"
definition yourscore_msg :: string where "yourscore_msg = ''YOUR_SCORE''"
definition highscore_msg :: string where "highscore_msg = ''ALL_SCORE''"
definition logged_msg :: string where "logged_msg = ''LOGGED_ANSWER''"
definition correct_msg :: string where "correct_msg = ''CORRECT_ANSWER''"
definition wrong_msg :: string where "wrong_msg = ''WRONG_ANSWER''"
definition question_msg :: string where "question_msg = ''YOUR_QUESTION''"
definition error_msg :: string where "error_msg = ''ERROR''"
definition noquestions_msg :: string where "noquestions_msg = ''NO_QUESTIONS''"

section \<open>multi_server: the store and the handlers\<close>

text \<open>
  The three global dictionaries keep their insertion order, so each is an association
  list: \<open>map_of\<close> reads a key, \<open>AList.update\<close> writes one (in place when the key is there,
  at the end otherwise), \<open>AList.delete\<close> removes one. A socket is what the handlers read
  of it: its peer address, or \<open>None\<close> when \<open>getpeername()\<close> raises. The file
  \<open>users.txt\<close> is the text last written to it; a write is taken to succeed. What the
  server prints is left out.
\<close>

type_synonym addr = "string \<times> nat"

datatype conn = Conn (getpeername: "addr option")

record user =
  password :: string
  score :: int
  questions_asked :: "int list"

record qdata =
  question :: string
  answers :: "string list"
  correct :: int

record server_state =
  users :: "(string \<times> user) list"
  questions :: "(int \<times> qdata) list"
  logged_users :: "(addr \<times> string) list"
  messages_to_send :: "(conn \<times> string option) list"
  users_txt :: string

definition py_index :: "'a list \<Rightarrow> int \<Rightarrow> exn + 'a" where
  \<comment> \<open>\<open>xs[i]\<close>: a negative index counts from the end, out of range raises\<close>
  "py_index xs i =
     (let n = int (length xs) in
      if 0 \<le> i \<and> i < n then Inr (xs ! nat i)
      else if - n \<le> i \<and> i < 0 then Inr (xs ! nat (n + i))
      else Inl IndexError)"

definition user_line :: "string \<times> user \<Rightarrow> string" where
  "user_line entry =
     (case entry of (username, udata) \<Rightarrow>
        let q_asked_str = join_on '' '' (map str_int (questions_asked udata))
        in username @ '','' @ password udata @ '','' @ str_int (score udata) @ '','' @
           q_asked_str @ [CHR 0x0A])"

definition save_user_database :: "server_state \<Rightarrow> server_state" where
  "save_user_database s = s\<lparr>users_txt := concat (map user_line (users s))\<rparr>"

text \<open>
  \<open>build_and_send_message\<close> queues whatever \<open>build_message\<close> returned, the \<open>None\<close>
  sentinel included; its boolean result is ignored by every caller.
\<close>

definition build_and_send_message :: "conn \<Rightarrow> string \<Rightarrow> string \<Rightarrow> server_state \<Rightarrow> server_state" where
  "build_and_send_message conn code data s =
     (let full_msg = build_message code data
      in s\<lparr>messages_to_send := messages_to_send s @ [(conn, full_msg)]\<rparr>)"

definition handle_login_message :: "conn \<Rightarrow> string \<Rightarrow> server_state \<Rightarrow> exn + server_state" where
  "handle_login_message conn data s =
     (case split_data data 2 of
        None \<Rightarrow> Inr (build_and_send_message conn error_msg ''Invalid login data'' s)
      | Some [username, pw] \<Rightarrow>
          (case map_of (users s) username of
             None \<Rightarrow>
               Inr (build_and_send_message conn error_msg
                      (''User '' @ [CHR 0x27] @ username @ [CHR 0x27] @ '' does not exist'') s)
           | Some udata \<Rightarrow>
               if password udata \<noteq> pw
               then Inr (build_and_send_message conn error_msg ''Incorrect password'' s)
               else
                 (case getpeername conn of
                    None \<Rightarrow> Inl OSError
                  | Some client_addr \<Rightarrow>
                      Inr (build_and_send_message conn login_ok_msg
                             (''Welcome '' @ username @ ''!'')
                             (s\<lparr>logged_users :=
                                  AList.update client_addr username (logged_users s)\<rparr>))))
      | Some _ \<Rightarrow> Inl ValueError)"

definition handle_logout_message :: "conn \<Rightarrow> server_state \<Rightarrow> server_state" where
  "handle_logout_message conn s =
     (case getpeername conn of
        None \<Rightarrow> s
      | Some client_addr \<Rightarrow>
          (case map_of (logged_users s) client_addr of
             None \<Rightarrow> s
           | Some username \<Rightarrow>
               save_user_database
                 (s\<lparr>logged_users := AList.delete client_addr (logged_users s)\<rparr>)))"

definition handle_getscore_message :: "conn \<Rightarrow> string \<Rightarrow> server_state \<Rightarrow> server_state" where
  "handle_getscore_message conn username s =
     (case map_of (users s) username of
        None \<Rightarrow>
          build_and_send_message conn error_msg
            (''User '' @ [CHR 0x27] @ username @ [CHR 0x27] @ '' does not exist'') s
      | Some udata \<Rightarrow> build_and_send_message conn yourscore_msg (str_int (score udata)) s)"

definition handle_highscore_message :: "conn \<Rightarrow> server_state \<Rightarrow> server_state" where
  \<comment> \<open>\<open>sorted(..., reverse=True)\<close> is stable: equal scores keep the dictionary order\<close>
  "handle_highscore_message conn s =
     (let sorted_users = sort_key (\<lambda>item. - score (snd item)) (users s);
          highscore_str =
            join_on [CHR 0x0A] (map (\<lambda>(u, ud). u @ '':'' @ str_int (score ud)) sorted_users)
      in build_and_send_message conn highscore_msg highscore_str s)"

definition handle_logged_message :: "conn \<Rightarrow> server_state \<Rightarrow> server_state" where
  "handle_logged_message conn s =
     (let usernames = map snd (logged_users s);
          logged_str = join_data usernames
      in build_and_send_message conn logged_msg logged_str s)"

text \<open>
  \<open>random.choice\<close> returns some element of a non-empty list; the draw is the argument
  \<open>rnd\<close>, reduced to an index.
\<close>

definition create_random_question ::
  "string \<Rightarrow> nat \<Rightarrow> server_state \<Rightarrow> exn + (string \<times> int) option" where
  "create_random_question username rnd s =
     (if questions s = [] then Inr None
      else
        (case map_of (users s) username of
           None \<Rightarrow> Inl KeyError
         | Some udata \<Rightarrow>
             (let asked = set (questions_asked udata);
                  available_qs = filter (\<lambda>q_num. q_num \<notin> asked) (map fst (questions s))
              in if available_qs = [] then Inr None
                 else
                   (let q_num = available_qs ! (rnd mod length available_qs)
                    in (case map_of (questions s) q_num of
                          None \<Rightarrow> Inl KeyError
                        | Some q_data \<Rightarrow>
                            (let answers_str = join_on ''#'' (answers q_data)
                             in Inr (Some (str_int q_num @ ''#'' @ question q_data @ ''#'' @
                                           answers_str, q_num))))))))"

definition handle_question_message ::
  "conn \<Rightarrow> string \<Rightarrow> nat \<Rightarrow> server_state \<Rightarrow> exn + server_state" where
  "handle_question_message conn username rnd s =
     (case create_random_question username rnd s of
        Inl e \<Rightarrow> Inl e
      | Inr (Some (question_str, q_num)) \<Rightarrow>
          (case map_of (users s) username of
             None \<Rightarrow> Inl KeyError
           | Some udata \<Rightarrow>
               let s1 = s\<lparr>users := AList.update username
                          (udata\<lparr>questions_asked := questions_asked udata @ [q_num]\<rparr>) (users s)\<rparr>;
                   s2 = save_user_database s1
               in Inr (build_and_send_message conn question_msg question_str s2))
      | Inr None \<Rightarrow>
          Inr (build_and_send_message conn error_msg ''No more questions available'' s))"

definition handle_answer_message ::
  "conn \<Rightarrow> string \<Rightarrow> string \<Rightarrow> server_state \<Rightarrow> exn + server_state" where
  "handle_answer_message conn username data s =
     (case split_on CHR ''#'' data of
        [q_num_str, ans_str] \<Rightarrow>
          (case py_int q_num_str of
             None \<Rightarrow> Inr (build_and_send_message conn error_msg ''Invalid answer format'' s)
           | Some q_num \<Rightarrow>
               (case py_int ans_str of
                  None \<Rightarrow> Inr (build_and_send_message conn error_msg ''Invalid answer format'' s)
                | Some user_ans \<Rightarrow>
                    (case map_of (questions s) q_num of
                       None \<Rightarrow>
                         Inr (build_and_send_message conn error_msg ''Question does not exist'' s)
                     | Some q_data \<Rightarrow>
                         let correct_ans = correct q_data
                         in if user_ans = correct_ans
                            then
                              (case map_of (users s) username of
                                 None \<Rightarrow> Inl KeyError
                               | Some udata \<Rightarrow>
                                   Inr (build_and_send_message conn correct_msg ''5''
                                          (s\<lparr>users := AList.update username
                                               (udata\<lparr>score := score udata + 5\<rparr>) (users s)\<rparr>)))
                            else
                              (case py_index (answers q_data) (correct_ans - 1) of
                                 Inl e \<Rightarrow> Inl e
                               | Inr correct_text \<Rightarrow>
                                   Inr (build_and_send_message conn wrong_msg
                                          (str_int correct_ans @ '','' @ correct_text) s)))))
      | _ \<Rightarrow> Inr (build_and_send_message conn error_msg ''Invalid answer format'' s))"

text \<open>
  \<open>handle_client_message\<close> returns whether the client stays connected, with the new store,
  or the exception a handler left by.
\<close>

definition handle_client_message ::
  "conn \<Rightarrow> string \<Rightarrow> string \<Rightarrow> nat \<Rightarrow> server_state \<Rightarrow> exn + (bool \<times> server_state)" where
  "handle_client_message conn cmd data rnd s =
     (case getpeername conn of
        None \<Rightarrow> Inr (False, s)
      | Some client_addr \<Rightarrow>
          (case map_of (logged_users s) client_addr of
             None \<Rightarrow>
               if cmd \<noteq> login_msg
               then Inr (True, build_and_send_message conn error_msg ''You must login first'' s)
               else map_sum id (Pair True) (handle_login_message conn data s)
           | Some username \<Rightarrow>
               if cmd = logout_msg then Inr (False, handle_logout_message conn s)
               else if cmd = getscore_msg
               then Inr (True, handle_getscore_message conn username s)
               else if cmd = gethighscore_msg
               then Inr (True, handle_highscore_message conn s)
               else if cmd = getlogged_msg
               then Inr (True, handle_logged_message conn s)
               else if cmd = getquestion_msg
               then map_sum id (Pair True) (handle_question_message conn username rnd s)
               else if cmd = sendanswer_msg
               then map_sum id (Pair True) (handle_answer_message conn username data s)
               else Inr (True, build_and_send_message conn error_msg ''Unsupported command'' s)))"

text \<open>
  What the main loop does to the store for one client: it dispatches a decoded command,
  queueing an error frame when the handler leaves by an exception, or it runs the logout
  handler when the peer is gone.
\<close>

datatype event = Command conn string string nat | Disconnect conn

fun step :: "server_state \<Rightarrow> event \<Rightarrow> server_state" where
  "step s (Command conn cmd data rnd) =
     (case handle_client_message conn cmd data rnd s of
        Inl e \<Rightarrow> build_and_send_message conn error_msg ''Server error occurred'' s
      | Inr (alive, s') \<Rightarrow> s')"
| "step s (Disconnect conn) = handle_logout_message conn s"

definition run :: "server_state \<Rightarrow> event list \<Rightarrow> server_state" where
  "run s es = foldl step s es"

section \<open>Notions of the specification\<close>

text \<open>
  The specification's reading of how a command is recovered from its padded field:
  trailing padding spaces are trimmed, nothing else.
\<close>

definition trim_padding :: "string \<Rightarrow> string" where
  "trim_padding cmd = rev (dropWhile (\<lambda>c. c = CHR '' '') (rev cmd))"

text \<open>
  The specification's reading of the data of a SEND_ANSWER command: exactly two fields
  joined by \<open>#\<close>, each one an integer for \<open>int\<close>.
\<close>

definition two_integers :: "string \<Rightarrow> (int \<times> int) option" where
  "two_integers data =
     (case split_on CHR ''#'' data of
        [a, b] \<Rightarrow>
          (case py_int a of
             None \<Rightarrow> None
           | Some q \<Rightarrow> (case py_int b of None \<Rightarrow> None | Some c \<Rightarrow> Some (q, c)))
      | _ \<Rightarrow> None)"

text \<open>
  The data of a WRONG_ANSWER reply: the stored correct index, a comma, and the text of the
  answer at that index.
\<close>

definition wrong_answer_data :: "qdata \<Rightarrow> string" where
  "wrong_answer_data qd = str_int (correct qd) @ '','' @ answers qd ! nat (correct qd - 1)"

text \<open>The question ids already issued to a user; empty for an unknown user.\<close>

definition asked_by :: "server_state \<Rightarrow> string \<Rightarrow> int set" where
  "asked_by s u = (case map_of (users s) u of None \<Rightarrow> {} | Some ud \<Rightarrow> set (questions_asked ud))"

text \<open>Every username of a live session is a key of the users dictionary.\<close>

definition sessions_valid :: "server_state \<Rightarrow> bool" where
  "sessions_valid s = list_all (\<lambda>entry. map_of (users s) (snd entry) \<noteq> None) (logged_users s)"

text \<open>
  How the store may differ after any number of steps: the question bank is the same, the
  users are the same names, no asked-question set has lost an id, and every session is an
  old one or names a user.
\<close>

definition evolves :: "server_state \<Rightarrow> server_state \<Rightarrow> bool" where
  "evolves s s' \<longleftrightarrow>
     questions s' = questions s \<and>
     fst ` set (users s') = fst ` set (users s) \<and>
     (\<forall>u. asked_by s u \<subseteq> asked_by s' u) \<and>
     (\<forall>entry \<in> set (logged_users s').
        entry \<in> set (logged_users s) \<or> snd entry \<in> fst ` set (users s))"

section \<open>An example store\<close>

text \<open>
  The users are the ones \<open>load_user_database\<close> creates when \<open>users.txt\<close> is missing;
  the user yossi is logged in from one connection and the file is up to date.
\<close>

definition default_users :: "(string \<times> user) list" where
  "default_users =
     [(''test'', \<lparr>password = ''test'', score = 0, questions_asked = []\<rparr>),
      (''yossi'', \<lparr>password = ''123'', score = 50, questions_asked = []\<rparr>),
      (''master'', \<lparr>password = ''master'', score = 200, questions_asked = []\<rparr>)]"

definition example_questions :: "(int \<times> qdata) list" where
  "example_questions =
     [(1, \<lparr>question = ''2 + 2 = ?'', answers = [''3'', ''4'', ''5'', ''6''], correct = 2\<rparr>),
      (2, \<lparr>question = ''3 * 3 = ?'', answers = [''9'', ''6'', ''12'', ''33''], correct = 1\<rparr>)]"

definition example_addr :: addr where
  "example_addr = (''127.0.0.1'', 50000)"

definition example_conn :: conn where
  "example_conn = Conn (Some example_addr)"

definition example_store :: server_state where
  "example_store =
     \<lparr>users = default_users, questions = example_questions,
      logged_users = [(example_addr, ''yossi'')],
      messages_to_send = [], users_txt = concat (map user_line default_users)\<rparr>"

text \<open>The value of a string of decimal digits, read left to right from \<open>acc\<close>.\<close>

definition dec_val :: "nat \<Rightarrow> string \<Rightarrow> nat" where
  "dec_val acc ds = foldl (\<lambda>a c. 10 * a + digit_val c) acc ds"

text \<open>The same store after both questions were issued to yossi.\<close>

definition exhausted_store :: server_state where
  "exhausted_store =
     example_store\<lparr>users :=
       AList.update ''yossi'' \<lparr>password = ''123'', score = 50, questions_asked = [2, 1]\<rparr>
         default_users\<rparr>"

text \<open>
  The example store with a bank of one question whose correct answer, the first, is 9998
  characters long.
\<close>

definition long_answer_store :: server_state where
  "long_answer_store =
     example_store\<lparr>questions :=
       [(1, \<lparr>question = ''a?'', answers = [replicate 9998 CHR ''a'', ''b'', ''c'', ''d''],
              correct = 1\<rparr>)]\<rparr>"

section \<open>The frame codec: decimal strings\<close>

lemma isdecimal_digit_char: "d < 10 \<Longrightarrow> isdecimal (digit_char d)"
  by (auto simp: digit_char_def isdecimal_def Let_def)

lemma digit_val_digit_char: "d < 10 \<Longrightarrow> digit_val (digit_char d) = d"
  by (auto simp: digit_char_def digit_val_def)

lemma isdecimal_zero: "isdecimal CHR ''0''" and digit_val_zero: "digit_val CHR ''0'' = 0"
  by (simp_all add: isdecimal_def digit_val_def)

lemma isdecimal_not_sign: "isdecimal c \<Longrightarrow> c \<noteq> CHR ''-'' \<and> c \<noteq> CHR ''+'' \<and> c \<noteq> CHR ''_''"
  by (auto simp: isdecimal_def)

lemma isdecimal_not_space: "isdecimal c \<Longrightarrow> \<not> int_space c"
  by (auto simp: isdecimal_def int_space_def Let_def)

lemma isdecimal_isdigit: "isdecimal c \<Longrightarrow> isdigit c"
  by (auto simp: isdecimal_def isdigit_def Let_def)

lemma str_nat_decimal: "list_all isdecimal (str_nat n) \<and> str_nat n \<noteq> []"
proof (induction n rule: str_nat.induct)
  case (1 n)
  show ?case
  proof (cases "n < 10")
    case True
    then show ?thesis by (simp add: str_nat.simps [of n] isdecimal_digit_char)
  next
    case False
    with 1 show ?thesis by (simp add: str_nat.simps [of n] isdecimal_digit_char)
  qed
qed

lemma str_nat_length: "n < 10 ^ k \<Longrightarrow> 0 < k \<Longrightarrow> length (str_nat n) \<le> k"
proof (induction n arbitrary: k rule: str_nat.induct)
  case (1 n)
  show ?case
  proof (cases "n < 10")
    case True
    with 1 show ?thesis by (simp add: str_nat.simps [of n] Suc_leI)
  next
    case False
    from 1(3) obtain j where k: "k = Suc j" by (cases k) auto
    from False 1(2) k have j: "0 < j" by (cases j) auto
    from 1(2) k have "n div 10 < 10 ^ j" by (simp add: less_mult_imp_div_less mult.commute)
    with 1(1) [OF False _ j] have "length (str_nat (n div 10)) \<le> j" by simp
    with False k show ?thesis by (simp add: str_nat.simps [of n])
  qed
qed

lemma dec_val_snoc: "dec_val acc (ds @ [c]) = 10 * dec_val acc ds + digit_val c"
  by (simp add: dec_val_def)

lemma dec_val_str_nat: "dec_val 0 (str_nat n) = n"
proof (induction n rule: str_nat.induct)
  case (1 n)
  show ?case
  proof (cases "n < 10")
    case True
    then show ?thesis by (simp add: str_nat.simps [of n] dec_val_def digit_val_digit_char)
  next
    case False
    with 1 show ?thesis
      by (simp add: str_nat.simps [of n] dec_val_snoc digit_val_digit_char)
  qed
qed

lemma dec_val_zeros: "dec_val 0 (replicate k CHR ''0'' @ ds) = dec_val 0 ds"
  by (induction k) (simp_all add: dec_val_def digit_val_zero)

lemma int_rest_decimal: "list_all isdecimal ds \<Longrightarrow> int_rest acc ds = Some (dec_val acc ds)"
  by (induction ds arbitrary: acc) (auto simp: dec_val_def isdecimal_not_sign)

lemma int_digits_decimal:
  "list_all isdecimal ds \<Longrightarrow> ds \<noteq> [] \<Longrightarrow> int_digits acc ds = Some (dec_val acc ds)"
  by (cases ds) (simp_all add: int_rest_decimal, simp add: dec_val_def)

lemma dropWhile_decimal: "list_all isdecimal ds \<Longrightarrow> dropWhile int_space ds = ds"
  by (cases ds) (simp_all add: isdecimal_not_space)

lemma py_int_decimal:
  assumes "list_all isdecimal ds" and "ds \<noteq> []" and "length ds \<le> 4300"
  shows "py_int ds = Some (int (dec_val 0 ds))"
proof -
  from assms(1) have "list_all isdecimal (rev ds)" by (simp add: list_all_iff)
  then have st: "dropWhile int_space (rev (dropWhile int_space (rev ds))) = ds"
    using assms(1) by (simp add: dropWhile_decimal)
  have "\<not> int_max_str_digits < length (filter isdecimal ds)"
    unfolding int_max_str_digits_def
    using length_filter_le [of isdecimal ds] assms(3) by linarith
  then have lit: "int_literal ds = Some (dec_val 0 ds)"
    using int_digits_decimal [OF assms(1,2), of 0] by (simp add: int_literal_def)
  obtain c cs where ds: "ds = c # cs" using assms(2) by (cases ds) auto
  from assms(1) ds have "c \<noteq> CHR ''-'' \<and> c \<noteq> CHR ''+''"
    by (simp add: isdecimal_not_sign)
  with st ds lit show ?thesis by (simp add: py_int_def)
qed

lemma zfill_decimal:
  "list_all isdecimal ds \<Longrightarrow> ds \<noteq> [] \<Longrightarrow> zfill w ds = replicate (w - length ds) CHR ''0'' @ ds"
  by (cases ds) (auto simp: zfill_def isdecimal_not_sign)

lemma length_field:
  assumes "n \<le> 9999"
  defines "ls \<equiv> zfill LENGTH_FIELD_LENGTH (str_int (int n))"
  shows "length ls = 4" and "list_all isdecimal ls" and "py_int ls = Some (int n)"
proof -
  have ls: "ls = replicate (4 - length (str_nat n)) CHR ''0'' @ str_nat n"
    by (simp add: ls_def str_int_def LENGTH_FIELD_LENGTH_def zfill_decimal str_nat_decimal)
  from assms(1) have "n < 10 ^ 4" by simp
  then have "length (str_nat n) \<le> 4" by (rule str_nat_length) simp
  then show len: "length ls = 4" by (simp add: ls)
  show dec: "list_all isdecimal ls"
    using str_nat_decimal [of n] by (auto simp: ls list_all_iff isdecimal_zero)
  have short: "length ls \<le> 4300" using len by simp
  have ne: "ls \<noteq> []" using len by auto
  from dec ne short have "py_int ls = Some (int (dec_val 0 ls))" by (rule py_int_decimal)
  then show "py_int ls = Some (int n)" by (simp add: ls dec_val_zeros dec_val_str_nat)
qed

lemma strip_ljust: "strip (ljust w s) = strip s"
proof -
  have "dropWhile isspace (replicate k CHR '' '' @ xs) = dropWhile isspace xs" for k xs
    by (induction k) (simp_all add: isspace_def)
  then show ?thesis by (simp add: strip_def ljust_def)
qed

section \<open>The frame codec: every outcome of parsing\<close>

text \<open>
  A length field that \<open>isdigit\<close> accepts and that is not all decimal makes \<open>int\<close>
  raise; \<open>parse_message_outcome\<close> lists what \<open>parse_message\<close> does on every input.
\<close>

lemma isdigit_not_space: "isdigit c \<Longrightarrow> \<not> int_space c"
  by (auto simp: isdigit_def int_space_def Let_def)

lemma isdigit_not_sign: "isdigit c \<Longrightarrow> c \<noteq> CHR ''-'' \<and> c \<noteq> CHR ''+'' \<and> c \<noteq> CHR ''_''"
  by (auto simp: isdigit_def)

lemma int_digits_not_decimal:
  assumes "list_all isdigit ds" and "\<not> list_all isdecimal ds"
  shows "int_digits acc ds = None" and "int_rest acc ds = None"
  using assms
proof (induction ds arbitrary: acc)
  case Nil
  { case 1 then show ?case by simp }
  { case 2 then show ?case by simp }
next
  case (Cons c cs)
  { case 1
    show ?case
    proof (cases "isdecimal c")
      case True
      with 1 have "list_all isdigit cs" "\<not> list_all isdecimal cs" by simp_all
      then have "int_rest (10 * acc + digit_val c) cs = None" by (rule Cons.IH(2))
      with True show ?thesis by simp
    next
      case False
      then show ?thesis by simp
    qed }
  { case 2
    from 2 have nu: "c \<noteq> CHR ''_''" by (simp add: isdigit_not_sign)
    show ?case
    proof (cases "isdecimal c")
      case True
      with 2 have "list_all isdigit cs" "\<not> list_all isdecimal cs" by simp_all
      then have "int_rest (10 * acc + digit_val c) cs = None" by (rule Cons.IH(2))
      with True nu show ?thesis by simp
    next
      case False
      with nu show ?thesis by simp
    qed }
qed

lemma dropWhile_isdigit: "list_all isdigit ds \<Longrightarrow> dropWhile int_space ds = ds"
  by (cases ds) (simp_all add: isdigit_not_space)

lemma py_int_not_decimal:
  assumes "list_all isdigit ds" and "\<not> list_all isdecimal ds"
  shows "py_int ds = None"
proof -
  from assms(1) have "list_all isdigit (rev ds)" by (simp add: list_all_iff)
  then have st: "dropWhile int_space (rev (dropWhile int_space (rev ds))) = ds"
    using assms(1) by (simp add: dropWhile_isdigit)
  from assms(2) obtain c cs where ds: "ds = c # cs" by (cases ds) auto
  from assms(1) ds have "c \<noteq> CHR ''-'' \<and> c \<noteq> CHR ''+''" by (simp add: isdigit_not_sign)
  moreover have "int_literal ds = None"
    using int_digits_not_decimal(1) [OF assms, of 0] by (simp add: int_literal_def)
  ultimately show ?thesis using st ds by (simp add: py_int_def)
qed

lemma parse_message_outcome:
  "parse_message m =
     (if length m < 22 \<or> m ! 16 \<noteq> CHR ''|'' \<or> m ! 21 \<noteq> CHR ''|'' then Inr None
      else if \<not> list_all isdigit (take 4 (drop 17 m)) then Inr None
      else if \<not> list_all isdecimal (take 4 (drop 17 m)) then Inl ValueError
      else if length m - 22 < dec_val 0 (take 4 (drop 17 m)) then Inr None
      else Inr (Some (strip (take 16 m),
                      take (dec_val 0 (take 4 (drop 17 m))) (drop 22 m))))"
proof (cases "length m < 22 \<or> m ! 16 \<noteq> CHR ''|'' \<or> m ! 21 \<noteq> CHR ''|''")
  case True
  then show ?thesis
    by (auto simp: parse_message_def MSG_HEADER_LENGTH_def CMD_FIELD_LENGTH_def
        LENGTH_FIELD_LENGTH_def DELIMITER_def)
next
  case False
  define f where "f = take 4 (drop 17 m)"
  from False have lf: "length f = 4" by (auto simp: f_def)
  then have ne: "f \<noteq> []" by auto
  have p: "parse_message m =
      (if \<not> str_isdigit f then Inr None
       else (case py_int f of
               None \<Rightarrow> Inl ValueError
             | Some n \<Rightarrow>
                 if int (length (take (nat n) (drop 22 m))) \<noteq> n then Inr None
                 else Inr (Some (strip (take 16 m), take (nat n) (drop 22 m)))))"
    using False
    by (simp add: parse_message_def MSG_HEADER_LENGTH_def CMD_FIELD_LENGTH_def
        LENGTH_FIELD_LENGTH_def DELIMITER_def f_def Let_def split: option.splits)
  show ?thesis
  proof (cases "list_all isdigit f")
    case nd: False
    with False show ?thesis by (simp add: p str_isdigit_def f_def [symmetric])
  next
    case d: True
    show ?thesis
    proof (cases "list_all isdecimal f")
      case nc: False
      with d have "py_int f = None" by (rule py_int_not_decimal)
      with False d nc ne show ?thesis by (simp add: p str_isdigit_def f_def [symmetric])
    next
      case c: True
      have "length f \<le> 4300" using lf by simp
      with c ne have "py_int f = Some (int (dec_val 0 f))" by (rule py_int_decimal)
      with False d c ne show ?thesis
        by (auto simp: p str_isdigit_def f_def [symmetric] min_def)
    qed
  qed
qed

section \<open>The frame codec: claims\<close>

text \<open>
  C5. \<open>build_message\<close> returns its error sentinel exactly when the command is longer than
  16 characters, or the data is longer than 9999 characters, or the command contains the
  delimiter \<open>|\<close> or the data delimiter \<open>#\<close>.
\<close>

theorem build_message_None_iff:
  "build_message cmd data = None \<longleftrightarrow>
     length cmd > 16 \<or> length data > 9999 \<or> CHR ''|'' \<in> set cmd \<or> CHR ''#'' \<in> set cmd"
  by (auto simp: build_message_def CMD_FIELD_LENGTH_def MAX_DATA_LENGTH_def
      LENGTH_FIELD_LENGTH_def DELIMITER_def DATA_DELIMITER_def Let_def)

theorem build_message_None_iff_witness:
  "build_message ''MY|SCORE'' [] = None \<and> build_message ''A_COMMAND_OF_17CH'' [] = None \<and>
   build_message ''MY_SCORE'' [] \<noteq> None"
  using build_message_None_iff [of "''MY|SCORE''" "[]"]
    build_message_None_iff [of "''A_COMMAND_OF_17CH''" "[]"]
    build_message_None_iff [of "''MY_SCORE''" "[]"]
  by simp

text \<open>
  C1, as amended. For every command of at most 16 characters with neither \<open>|\<close> nor \<open>#\<close>
  and every data string of at most 9999 characters, \<open>build_message\<close> succeeds and
  \<open>parse_message\<close> on its result returns the command with the whitespace at both of its
  ends stripped (what \<open>str.strip()\<close> removes), together with the data unchanged.
\<close>

theorem build_parse_roundtrip:
  assumes "length cmd \<le> 16" and "CHR ''|'' \<notin> set cmd" and "CHR ''#'' \<notin> set cmd"
    and "length data \<le> 9999"
  shows "map_option parse_message (build_message cmd data) = Some (Inr (Some (strip cmd, data)))"
proof -
  define ls where "ls = zfill LENGTH_FIELD_LENGTH (str_int (int (length data)))"
  define pc where "pc = ljust CMD_FIELD_LENGTH cmd"
  define m where "m = pc @ [DELIMITER] @ ls @ [DELIMITER] @ data"
  have built: "build_message cmd data = Some m"
    using assms by (simp add: build_message_def m_def ls_def pc_def Let_def
        CMD_FIELD_LENGTH_def MAX_DATA_LENGTH_def LENGTH_FIELD_LENGTH_def DELIMITER_def
        DATA_DELIMITER_def)
  have lpc: "length pc = 16" using assms(1) by (simp add: pc_def ljust_def CMD_FIELD_LENGTH_def)
  have lls: "length ls = 4" and dls: "list_all isdecimal ls"
    and ils: "py_int ls = Some (int (length data))"
    using length_field [OF assms(4)] by (simp_all add: ls_def)
  have "ls \<noteq> []" using lls by auto
  with dls have isd: "str_isdigit ls"
    by (auto simp: str_isdigit_def list_all_iff isdecimal_isdigit)
  have len: "\<not> length m < 22" by (simp add: m_def lpc lls)
  have d1: "m ! 16 = CHR ''|''" by (simp add: m_def nth_append lpc DELIMITER_def)
  have d2: "m ! 21 = CHR ''|''" by (simp add: m_def nth_append lpc lls nth_Cons' DELIMITER_def)
  have c: "take 16 m = pc" by (simp add: m_def lpc)
  have l: "take 4 (drop 17 m) = ls" by (simp add: m_def lpc lls)
  have d: "drop 22 m = data" by (simp add: m_def lpc lls)
  have "parse_message m = Inr (Some (strip cmd, data))"
    by (simp add: parse_message_def MSG_HEADER_LENGTH_def CMD_FIELD_LENGTH_def
        LENGTH_FIELD_LENGTH_def DELIMITER_def len d1 d2 c l d isd ils pc_def strip_ljust)
  with built show ?thesis by simp
qed

theorem build_parse_roundtrip_witness:
  "map_option parse_message (build_message ''LOGIN'' ''yossi#123'') =
     Some (Inr (Some (''LOGIN'', ''yossi#123'')))"
proof -
  have "strip ''LOGIN'' = ''LOGIN''" by code_simp
  with build_parse_roundtrip [of "''LOGIN''" "''yossi#123''"] show ?thesis by simp
qed

text \<open>
  C1, as stated, fails: the command \<open>'' A''\<close> has no trailing space, so trimming its
  padding leaves it as it is, while the decoded command is \<open>''A''\<close>.
\<close>

theorem trailing_trim_counterexample:
  "map_option parse_message (build_message '' A'' []) \<noteq>
     Some (Inr (Some (trim_padding '' A'', [])))"
  by code_simp

text \<open>
  C6. The claim asks for the error pair whenever the length field is not four ASCII
  digits. The frame below has the length field \<open>00\<close>, superscript two (code point B2),
  \<open>0\<close>: \<open>isdigit\<close> accepts it, \<open>int\<close> does not, and \<open>parse_message\<close> leaves by the
  ValueError instead of returning the error pair. On every other input the outcome is the
  one the claim gives (\<open>parse_message_outcome\<close>).
\<close>

theorem parse_message_superscript_digit:
  "parse_message (replicate 16 CHR '' '' @ ''|00'' @ [CHR 0xB2] @ ''0|'') = Inl ValueError \<and>
   \<not> list_all isdecimal (''00'' @ [CHR 0xB2] @ ''0'')"
  by code_simp

section \<open>The store: what a step may change\<close>

lemmas protocol_defs = login_msg_def logout_msg_def getscore_msg_def getlogged_msg_def
  gethighscore_msg_def getquestion_msg_def sendanswer_msg_def login_ok_msg_def
  yourscore_msg_def highscore_msg_def logged_msg_def correct_msg_def wrong_msg_def
  question_msg_def error_msg_def noquestions_msg_def

lemma sent_fields [simp]:
  "users (build_and_send_message conn code data s) = users s"
  "questions (build_and_send_message conn code data s) = questions s"
  "logged_users (build_and_send_message conn code data s) = logged_users s"
  "users_txt (build_and_send_message conn code data s) = users_txt s"
  by (simp_all add: build_and_send_message_def)

lemma saved_fields [simp]:
  "users (save_user_database s) = users s"
  "questions (save_user_database s) = questions s"
  "logged_users (save_user_database s) = logged_users s"
  "messages_to_send (save_user_database s) = messages_to_send s"
  by (simp_all add: save_user_database_def)

lemma evolves_refl: "evolves s s"
  by (simp add: evolves_def)

lemma evolves_trans:
  assumes st: "evolves s t" and tr: "evolves t r"
  shows "evolves s r"
proof -
  have q: "questions r = questions s" using st tr by (simp add: evolves_def)
  have k: "fst ` set (users r) = fst ` set (users s)" using st tr by (simp add: evolves_def)
  have a: "asked_by s u \<subseteq> asked_by r u" for u
  proof -
    have "asked_by s u \<subseteq> asked_by t u" using st by (simp add: evolves_def)
    moreover have "asked_by t u \<subseteq> asked_by r u" using tr by (simp add: evolves_def)
    ultimately show ?thesis by (rule subset_trans)
  qed
  have l: "entry \<in> set (logged_users s) \<or> snd entry \<in> fst ` set (users s)"
    if "entry \<in> set (logged_users r)" for entry
  proof -
    from tr that have "entry \<in> set (logged_users t) \<or> snd entry \<in> fst ` set (users t)"
      unfolding evolves_def by blast
    moreover have "fst ` set (users t) = fst ` set (users s)" using st by (simp add: evolves_def)
    moreover have "e \<in> set (logged_users t) \<Longrightarrow>
        e \<in> set (logged_users s) \<or> snd e \<in> fst ` set (users s)" for e
      using st unfolding evolves_def by blast
    ultimately show ?thesis by blast
  qed
  show ?thesis unfolding evolves_def using q k a l by blast
qed

lemma evolves_same_store:
  "users t = users s \<Longrightarrow> questions t = questions s \<Longrightarrow> logged_users t = logged_users s \<Longrightarrow>
   evolves s t"
  by (simp add: evolves_def asked_by_def)

lemma evolves_sent: "evolves s t \<Longrightarrow> evolves s (build_and_send_message conn code data t)"
  by (erule evolves_trans) (simp add: evolves_same_store)

lemma evolves_saved: "evolves s t \<Longrightarrow> evolves s (save_user_database t)"
  by (erule evolves_trans) (simp add: evolves_same_store)

lemma map_of_keys: "map_of al k = Some v \<Longrightarrow> k \<in> fst ` set al"
  by (metis domI dom_map_of_conv_image_fst)

lemma evolves_user_update:
  assumes u: "map_of (users s) u = Some ud"
    and sub: "set (questions_asked ud) \<subseteq> set (questions_asked ud')"
  shows "evolves s (s\<lparr>users := AList.update u ud' (users s)\<rparr>)"
proof -
  have "u \<in> fst ` set (users s)" by (rule map_of_keys [OF u])
  then have k: "fst ` set (AList.update u ud' (users s)) = fst ` set (users s)"
    by (auto simp: AList.dom_update)
  have a: "asked_by s v \<subseteq> asked_by (s\<lparr>users := AList.update u ud' (users s)\<rparr>) v" for v
  proof (cases "v = u")
    case True
    with u sub show ?thesis by (simp add: asked_by_def AList.update_conv')
  next
    case False
    then show ?thesis by (simp add: asked_by_def AList.update_conv')
  qed
  show ?thesis unfolding evolves_def using k a by simp
qed

lemma set_update_cases: "entry \<in> set (AList.update k v al) \<Longrightarrow> entry = (k, v) \<or> entry \<in> set al"
  by (induction al) (auto split: if_splits)

lemma evolves_session_update:
  assumes "map_of (users s) u = Some ud"
  shows "evolves s (s\<lparr>logged_users := AList.update a u (logged_users s)\<rparr>)"
proof -
  have key: "u \<in> fst ` set (users s)" by (rule map_of_keys [OF assms])
  have "entry \<in> set (logged_users s) \<or> snd entry \<in> fst ` set (users s)"
    if "entry \<in> set (AList.update a u (logged_users s))" for entry
  proof -
    from that have "entry = (a, u) \<or> entry \<in> set (logged_users s)" by (rule set_update_cases)
    then show ?thesis
    proof
      assume "entry = (a, u)"
      then have "snd entry = u" by simp
      with key show ?thesis by simp
    next
      assume "entry \<in> set (logged_users s)"
      then show ?thesis by simp
    qed
  qed
  then show ?thesis by (simp add: evolves_def asked_by_def)
qed

lemma evolves_session_delete:
  "evolves s (s\<lparr>logged_users := AList.delete a (logged_users s)\<rparr>)"
  by (simp add: evolves_def asked_by_def AList.delete_eq)

lemma evolves_login:
  assumes "handle_login_message conn data s = Inr s'"
  shows "evolves s s'"
proof (cases "split_data data 2")
  case None
  with assms show ?thesis
    by (auto simp: handle_login_message_def intro: evolves_sent evolves_refl)
next
  case (Some fields)
  show ?thesis
  proof (cases "\<exists>username pw. fields = [username, pw]")
    case False
    with Some assms show ?thesis
      by (auto simp: handle_login_message_def split: list.splits)
  next
    case True
    then obtain username pw where f: "fields = [username, pw]" by blast
    show ?thesis
    proof (cases "map_of (users s) username")
      case None
      with Some f assms show ?thesis
        by (auto simp: handle_login_message_def intro: evolves_sent evolves_refl)
    next
      case udata: (Some udata)
      with Some f assms show ?thesis
        by (auto simp: handle_login_message_def split: if_splits option.splits
            intro: evolves_sent evolves_refl evolves_session_update)
    qed
  qed
qed

lemma evolves_logout: "evolves s (handle_logout_message conn s)"
  by (auto simp: handle_logout_message_def split: option.splits
      intro: evolves_refl evolves_saved evolves_session_delete)

lemma evolves_question:
  assumes "handle_question_message conn u rnd s = Inr s'"
  shows "evolves s s'"
proof (cases "create_random_question u rnd s")
  case (Inl e)
  with assms show ?thesis by (simp add: handle_question_message_def)
next
  case (Inr picked)
  show ?thesis
  proof (cases picked)
    case None
    with Inr assms show ?thesis
      by (auto simp: handle_question_message_def intro: evolves_sent evolves_refl)
  next
    case (Some pair)
    obtain qstr q where "pair = (qstr, q)" by (cases pair)
    with Some Inr assms show ?thesis
      by (auto simp: handle_question_message_def Let_def split: option.splits
          intro!: evolves_sent evolves_saved evolves_user_update)
  qed
qed

lemma handle_answer_message_cases:
  "handle_answer_message conn username data s =
     (case two_integers data of
        None \<Rightarrow> Inr (build_and_send_message conn error_msg ''Invalid answer format'' s)
      | Some (q_num, user_ans) \<Rightarrow>
          (case map_of (questions s) q_num of
             None \<Rightarrow> Inr (build_and_send_message conn error_msg ''Question does not exist'' s)
           | Some q_data \<Rightarrow>
               if user_ans = correct q_data
               then
                 (case map_of (users s) username of
                    None \<Rightarrow> Inl KeyError
                  | Some udata \<Rightarrow>
                      Inr (build_and_send_message conn correct_msg ''5''
                             (s\<lparr>users := AList.update username
                                  (udata\<lparr>score := score udata + 5\<rparr>) (users s)\<rparr>)))
               else
                 (case py_index (answers q_data) (correct q_data - 1) of
                    Inl e \<Rightarrow> Inl e
                  | Inr correct_text \<Rightarrow>
                      Inr (build_and_send_message conn wrong_msg
                             (str_int (correct q_data) @ '','' @ correct_text) s))))"
  by (simp add: handle_answer_message_def two_integers_def Let_def
      split: list.splits option.splits)

lemma evolves_answer:
  assumes "handle_answer_message conn u data s = Inr s'"
  shows "evolves s s'"
proof (cases "two_integers data")
  case None
  with assms show ?thesis
    by (auto simp: handle_answer_message_cases intro: evolves_sent evolves_refl)
next
  case (Some pair)
  obtain q c where pair: "pair = (q, c)" by (cases pair)
  show ?thesis
  proof (cases "map_of (questions s) q")
    case None
    with Some pair assms show ?thesis
      by (auto simp: handle_answer_message_cases intro: evolves_sent evolves_refl)
  next
    case qd: (Some qd)
    show ?thesis
    proof (cases "c = correct qd")
      case True
      with qd Some pair assms show ?thesis
        by (auto simp: handle_answer_message_cases split: option.splits
            intro!: evolves_sent evolves_user_update)
    next
      case False
      with qd Some pair assms show ?thesis
        by (auto simp: handle_answer_message_cases split: sum.splits
            intro: evolves_sent evolves_refl)
    qed
  qed
qed

lemma evolves_dispatch:
  assumes "handle_client_message conn cmd data rnd s = Inr (alive, s')"
  shows "evolves s s'"
proof (cases "getpeername conn")
  case None
  with assms show ?thesis by (simp add: handle_client_message_def evolves_refl)
next
  case (Some a)
  show ?thesis
  proof (cases "map_of (logged_users s) a")
    case None
    show ?thesis
    proof (cases "cmd = login_msg")
      case True
      with None Some assms obtain t where "handle_login_message conn data s = Inr t" and "s' = t"
        by (cases "handle_login_message conn data s") (auto simp: handle_client_message_def)
      then show ?thesis by (simp add: evolves_login)
    next
      case False
      with None Some assms show ?thesis
        by (auto simp: handle_client_message_def intro: evolves_sent evolves_refl)
    qed
  next
    case u: (Some u)
    consider (logout) "cmd = logout_msg"
      | (question) "cmd \<noteq> logout_msg" "cmd = getquestion_msg"
      | (answer) "cmd \<noteq> logout_msg" "cmd \<noteq> getquestion_msg" "cmd = sendanswer_msg"
      | (other) "cmd \<noteq> logout_msg" "cmd \<noteq> getquestion_msg" "cmd \<noteq> sendanswer_msg"
      by blast
    then show ?thesis
    proof cases
      case logout
      with u Some assms show ?thesis
        by (auto simp: handle_client_message_def evolves_logout)
    next
      case question
      with u Some assms obtain t where "handle_question_message conn u rnd s = Inr t" and "s' = t"
        by (cases "handle_question_message conn u rnd s")
          (auto simp: handle_client_message_def protocol_defs)
      then show ?thesis by (simp add: evolves_question)
    next
      case answer
      with u Some assms obtain t where "handle_answer_message conn u data s = Inr t" and "s' = t"
        by (cases "handle_answer_message conn u data s")
          (auto simp: handle_client_message_def protocol_defs)
      then show ?thesis by (simp add: evolves_answer)
    next
      case other
      with u Some assms show ?thesis
        by (auto simp: handle_client_message_def handle_getscore_message_def
            handle_highscore_message_def handle_logged_message_def Let_def
            split: if_splits option.splits intro: evolves_sent evolves_refl)
    qed
  qed
qed

lemma evolves_step: "evolves s (step s e)"
proof (cases e)
  case (Command conn cmd data rnd)
  show ?thesis
  proof (cases "handle_client_message conn cmd data rnd s")
    case (Inl x)
    with Command show ?thesis by (simp add: evolves_sent evolves_refl)
  next
    case (Inr res)
    obtain alive t where "res = (alive, t)" by (cases res)
    with Inr Command show ?thesis by (simp add: evolves_dispatch)
  qed
next
  case (Disconnect conn)
  then show ?thesis by (simp add: evolves_logout)
qed

lemma run_Cons: "run s (e # es) = run (step s e) es"
  by (simp add: run_def)

lemma evolves_run: "evolves s (run s es)"
proof (induction es arbitrary: s)
  case Nil
  show ?case by (simp add: run_def evolves_refl)
next
  case (Cons e es)
  have "evolves (step s e) (run (step s e) es)" by (rule Cons.IH)
  with evolves_step [of s e] have "evolves s (run (step s e) es)" by (rule evolves_trans)
  then show ?case by (simp add: run_Cons)
qed

lemma sessions_valid_iff:
  "sessions_valid s \<longleftrightarrow> (\<forall>entry \<in> set (logged_users s). snd entry \<in> fst ` set (users s))"
  by (simp add: sessions_valid_def list_all_iff map_of_eq_None_iff)

lemma sessions_valid_evolves:
  assumes v: "sessions_valid s" and e: "evolves s s'"
  shows "sessions_valid s'"
proof -
  have "snd entry \<in> fst ` set (users s')" if "entry \<in> set (logged_users s')" for entry
  proof -
    from e that have "entry \<in> set (logged_users s) \<or> snd entry \<in> fst ` set (users s)"
      unfolding evolves_def by blast
    with v have "snd entry \<in> fst ` set (users s)"
      unfolding sessions_valid_iff by blast
    moreover from e have "fst ` set (users s') = fst ` set (users s)"
      by (simp add: evolves_def)
    ultimately show ?thesis by simp
  qed
  then show ?thesis unfolding sessions_valid_iff by blast
qed

section \<open>The store: frames, dispatch and the example\<close>

lemma frame_invalid_answer:
  "build_message error_msg ''Invalid answer format'' =
     Some ''ERROR           |0021|Invalid answer format''"
  by code_simp

lemma frame_no_question:
  "build_message error_msg ''Question does not exist'' =
     Some ''ERROR           |0023|Question does not exist''"
  by code_simp

lemma frame_no_more:
  "build_message error_msg ''No more questions available'' =
     Some ''ERROR           |0027|No more questions available''"
  by code_simp

lemma frame_correct: "build_message correct_msg ''5'' = Some ''CORRECT_ANSWER  |0001|5''"
  by code_simp

lemma dispatch_send_answer:
  "getpeername conn = Some a \<Longrightarrow> map_of (logged_users s) a = Some u \<Longrightarrow>
   handle_client_message conn sendanswer_msg data rnd s =
     map_sum id (Pair True) (handle_answer_message conn u data s)"
  by (simp add: handle_client_message_def protocol_defs)

lemma dispatch_get_question:
  "getpeername conn = Some a \<Longrightarrow> map_of (logged_users s) a = Some u \<Longrightarrow>
   handle_client_message conn getquestion_msg data rnd s =
     map_sum id (Pair True) (handle_question_message conn u rnd s)"
  by (simp add: handle_client_message_def protocol_defs)

lemmas example_defs = example_store_def default_users_def example_questions_def
  example_conn_def example_addr_def exhausted_store_def

lemma example_session:
  "getpeername example_conn = Some example_addr"
  "map_of (logged_users example_store) example_addr = Some ''yossi''"
  "map_of (users example_store) ''yossi'' =
     Some \<lparr>password = ''123'', score = 50, questions_asked = []\<rparr>"
  by (simp_all add: example_defs)

lemma example_question_1:
  "map_of (questions example_store) 1 =
     Some \<lparr>question = ''2 + 2 = ?'', answers = [''3'', ''4'', ''5'', ''6''], correct = 2\<rparr>"
  by (simp add: example_defs)

lemma digit_chars:
  "digit_char 0 = CHR ''0''" "digit_char 1 = CHR ''1''" "digit_char 2 = CHR ''2''"
  "digit_char 3 = CHR ''3''" "digit_char 4 = CHR ''4''" "digit_char 5 = CHR ''5''"
  "digit_char 6 = CHR ''6''" "digit_char 7 = CHR ''7''" "digit_char 8 = CHR ''8''"
  "digit_char 9 = CHR ''9''" "digit_char (Suc 0) = CHR ''1''"
  by (simp_all add: digit_char_def char_of_def bit_Suc_0_iff)

lemma str_int_examples:
  "str_int 0 = ''0''" "str_int 1 = ''1''" "str_int 2 = ''2''" "str_int 50 = ''50''"
  "str_int 55 = ''55''" "str_int 200 = ''200''"
  by (simp_all add: str_int_def str_nat.simps digit_chars)

lemma answer_correct_step:
  assumes "getpeername conn = Some a" and "map_of (logged_users s) a = Some u"
    and "map_of (users s) u = Some ud"
    and "two_integers data = Some (q, correct qd)" and "map_of (questions s) q = Some qd"
  shows "step s (Command conn sendanswer_msg data rnd) =
           s\<lparr>users := AList.update u (ud\<lparr>score := score ud + 5\<rparr>) (users s),
             messages_to_send := messages_to_send s @
               [(conn, Some ''CORRECT_ANSWER  |0001|5'')]\<rparr>"
  using assms(3-5)
  by (simp add: dispatch_send_answer [OF assms(1,2)] handle_answer_message_cases
      build_and_send_message_def frame_correct)

section \<open>What \<open>int\<close> refuses, and the frame of a wrong answer\<close>

lemma py_int_too_long:
  assumes "list_all isdecimal ds" and "4300 < length ds"
  shows "py_int ds = None"
proof -
  from assms(1) have "list_all isdecimal (rev ds)" by (simp add: list_all_iff)
  then have st: "dropWhile int_space (rev (dropWhile int_space (rev ds))) = ds"
    using assms(1) by (simp add: dropWhile_decimal)
  from assms(1) have "filter isdecimal ds = ds" by (simp add: list_all_iff)
  with assms(2) have lit: "int_literal ds = None"
    by (simp add: int_literal_def int_max_str_digits_def)
  from assms(2) obtain c cs where ds: "ds = c # cs" by (cases ds) auto
  from assms(1) ds have "c \<noteq> CHR ''-'' \<and> c \<noteq> CHR ''+''"
    by (simp add: isdecimal_not_sign)
  with st ds lit show ?thesis by (simp add: py_int_def)
qed

lemma split_on_Cons:
  "split_on sep (c # cs) =
     (if c = sep then [] # split_on sep cs
      else (c # hd (split_on sep cs)) # tl (split_on sep cs))"
  by (simp add: split_on_def)

lemma split_on_nonempty: "split_on sep ys \<noteq> []"
  by (induction ys) (simp_all add: split_on_Cons, simp add: split_on_def)

lemma split_on_prefix:
  "sep \<notin> set xs \<Longrightarrow>
   split_on sep (xs @ ys) = (xs @ hd (split_on sep ys)) # tl (split_on sep ys)"
  by (induction xs) (auto simp: split_on_Cons split_on_nonempty)

lemma long_numeral_rejected: "two_integers (replicate 4300 CHR ''0'' @ ''1#2'') = None"
proof -
  have s: "split_on CHR ''#'' ''1#2'' = [''1'', ''2'']" by (simp add: split_on_def)
  have "CHR ''#'' \<notin> set (replicate 4300 CHR ''0'')" by simp
  then have "split_on CHR ''#'' (replicate 4300 CHR ''0'' @ ''1#2'') =
      (replicate 4300 CHR ''0'' @ hd (split_on CHR ''#'' ''1#2'')) #
      tl (split_on CHR ''#'' ''1#2'')"
    by (rule split_on_prefix)
  then have sp: "split_on CHR ''#'' (replicate 4300 CHR ''0'' @ ''1#2'') =
      [replicate 4300 CHR ''0'' @ ''1'', ''2'']"
    by (simp only: s list.sel)
  have "list_all isdecimal (replicate 4300 CHR ''0'' @ ''1'')"
    by (simp add: list_all_iff isdecimal_def)
  moreover have "4300 < length (replicate 4300 CHR ''0'' @ ''1'')" by simp
  ultimately have "py_int (replicate 4300 CHR ''0'' @ ''1'') = None" by (rule py_int_too_long)
  with sp show ?thesis by (simp add: two_integers_def)
qed

lemma wrong_answer_frame:
  assumes "length data \<le> 9999"
  shows "build_message wrong_msg data =
           Some (''WRONG_ANSWER    |'' @ zfill 4 (str_int (int (length data))) @ ''|'' @ data)"
proof -
  have "ljust 16 ''WRONG_ANSWER'' = ''WRONG_ANSWER    ''" by code_simp
  with assms show ?thesis
    by (simp add: build_message_def wrong_msg_def CMD_FIELD_LENGTH_def MAX_DATA_LENGTH_def
        LENGTH_FIELD_LENGTH_def DELIMITER_def DATA_DELIMITER_def Let_def)
qed

section \<open>The question picker\<close>


lemma picker_none:
  assumes "map_of (users s) u = Some ud"
    and "fst ` set (questions s) \<subseteq> set (questions_asked ud)"
  shows "create_random_question u rnd s = Inr None"
proof -
  have "filter (\<lambda>q_num. q_num \<notin> set (questions_asked ud)) (map fst (questions s)) = []"
    using assms(2) by (auto simp: filter_empty_conv)
  with assms(1) show ?thesis by (simp add: create_random_question_def Let_def)
qed

lemma evolves_user:
  assumes "evolves s t" and "map_of (users s) u = Some ud"
  obtains ud' where "map_of (users t) u = Some ud'"
    and "set (questions_asked ud) \<subseteq> set (questions_asked ud')"
proof -
  from assms(2) have "u \<in> fst ` set (users s)" by (rule map_of_keys)
  with assms(1) have "u \<in> fst ` set (users t)" by (simp add: evolves_def)
  then obtain ud' where t: "map_of (users t) u = Some ud'"
    by (cases "map_of (users t) u") (auto simp: map_of_eq_None_iff)
  from assms(1) have "asked_by s u \<subseteq> asked_by t u" by (simp add: evolves_def)
  with assms(2) t have "set (questions_asked ud) \<subseteq> set (questions_asked ud')"
    by (simp add: asked_by_def)
  with t show ?thesis by (rule that)
qed

lemma exhausted_session:
  "map_of (users exhausted_store) ''yossi'' =
     Some \<lparr>password = ''123'', score = 50, questions_asked = [2, 1]\<rparr>"
  "fst ` set (questions exhausted_store) \<subseteq>
     set (questions_asked \<lparr>password = ''123'', score = 50, questions_asked = [2, 1]\<rparr>)"
  "map_of (logged_users exhausted_store) example_addr = Some ''yossi''"
  by (simp_all add: example_defs)


section \<open>The store: claims\<close>

text \<open>
  C10. Every username stored as a value in the live-session dictionary is a key of the
  users dictionary, and this stays so after every dispatched command: whenever
  \<open>handle_client_message\<close> returns, and after any sequence of commands and disconnects
  handled by the main loop. The server starts with no session, where it holds trivially.
\<close>

theorem sessions_name_users:
  assumes "sessions_valid s"
  shows "(\<forall>conn cmd data rnd alive s'.
            handle_client_message conn cmd data rnd s = Inr (alive, s') \<longrightarrow> sessions_valid s') \<and>
         (\<forall>es. sessions_valid (run s es))"
proof (intro conjI allI impI)
  fix conn cmd data rnd alive s'
  assume "handle_client_message conn cmd data rnd s = Inr (alive, s')"
  then have "evolves s s'" by (rule evolves_dispatch)
  with assms show "sessions_valid s'" by (rule sessions_valid_evolves)
next
  fix es
  show "sessions_valid (run s es)" using assms evolves_run by (rule sessions_valid_evolves)
qed

theorem sessions_name_users_witness:
  "sessions_valid example_store \<and>
   sessions_valid (run example_store
     [Command example_conn ''GET_QUESTION'' [] 0, Command example_conn ''LOGOUT'' [] 0,
      Command example_conn ''LOGIN'' ''master#master'' 0])"
proof -
  have v: "sessions_valid example_store"
    by (simp add: sessions_valid_def example_store_def default_users_def)
  have "\<forall>es. sessions_valid (run example_store es)"
    using sessions_name_users [OF v] by (rule conjunct2)
  then have "sessions_valid (run example_store
     [Command example_conn ''GET_QUESTION'' [] 0, Command example_conn ''LOGOUT'' [] 0,
      Command example_conn ''LOGIN'' ''master#master'' 0])" by (rule spec)
  with v show ?thesis by (rule conjI)
qed

text \<open>
  C7. For an authenticated user, a SEND_ANSWER whose data is not exactly two integers joined
  by \<open>#\<close> (as \<open>int\<close> reads them: a field of more than 4300 digits is no integer for it),
  or whose question id is not in the question bank, is answered with an ERROR frame, and
  nothing of the store changes but the outbound queue: the score and the whole user record
  stay as they were.
\<close>

theorem send_answer_rejected:
  assumes "getpeername conn = Some a" and "map_of (logged_users s) a = Some u"
    and "map_of (users s) u = Some ud"
    and "two_integers data = None \<or>
         (\<exists>q c. two_integers data = Some (q, c) \<and> map_of (questions s) q = None)"
  shows "handle_client_message conn sendanswer_msg data rnd s =
           Inr (True, s\<lparr>messages_to_send := messages_to_send s @
                  [(conn, Some (if two_integers data = None
                                then ''ERROR           |0021|Invalid answer format''
                                else ''ERROR           |0023|Question does not exist''))]\<rparr>)"
  using assms(4)
  by (auto simp: dispatch_send_answer [OF assms(1,2)] handle_answer_message_cases
      build_and_send_message_def frame_invalid_answer frame_no_question)

theorem send_answer_rejected_witness:
  "handle_client_message example_conn sendanswer_msg ''1#two'' 0 example_store =
     Inr (True, example_store\<lparr>messages_to_send :=
            [(example_conn, Some ''ERROR           |0021|Invalid answer format'')]\<rparr>) \<and>
   handle_client_message example_conn sendanswer_msg ''7#2'' 0 example_store =
     Inr (True, example_store\<lparr>messages_to_send :=
            [(example_conn, Some ''ERROR           |0023|Question does not exist'')]\<rparr>) \<and>
   handle_client_message example_conn sendanswer_msg (replicate 4300 CHR ''0'' @ ''1#2'') 0
       example_store =
     Inr (True, example_store\<lparr>messages_to_send :=
            [(example_conn, Some ''ERROR           |0021|Invalid answer format'')]\<rparr>)"
proof -
  have m: "two_integers ''1#two'' = None" by code_simp
  have t: "two_integers ''7#2'' = Some (7, 2)" by code_simp
  note n = long_numeral_rejected
  have q: "map_of (questions example_store) 7 = None" by (simp add: example_defs)
  have e: "messages_to_send example_store = []" by (simp add: example_store_def)
  from m have m': "two_integers ''1#two'' = None \<or>
      (\<exists>q c. two_integers ''1#two'' = Some (q, c) \<and> map_of (questions example_store) q = None)"
    by (rule disjI1)
  from t q have "\<exists>q c. two_integers ''7#2'' = Some (q, c) \<and>
      map_of (questions example_store) q = None"
    by (intro exI conjI)
  then have t': "two_integers ''7#2'' = None \<or>
      (\<exists>q c. two_integers ''7#2'' = Some (q, c) \<and> map_of (questions example_store) q = None)"
    by (rule disjI2)
  from n have n': "two_integers (replicate 4300 CHR ''0'' @ ''1#2'') = None \<or>
      (\<exists>q c. two_integers (replicate 4300 CHR ''0'' @ ''1#2'') = Some (q, c) \<and>
             map_of (questions example_store) q = None)"
    by (rule disjI1)
  have r1: "handle_client_message example_conn sendanswer_msg ''1#two'' 0 example_store =
     Inr (True, example_store\<lparr>messages_to_send :=
            [(example_conn, Some ''ERROR           |0021|Invalid answer format'')]\<rparr>)"
    using send_answer_rejected [OF example_session m', where rnd = 0] by (simp add: m e)
  have r2: "handle_client_message example_conn sendanswer_msg ''7#2'' 0 example_store =
     Inr (True, example_store\<lparr>messages_to_send :=
            [(example_conn, Some ''ERROR           |0023|Question does not exist'')]\<rparr>)"
    using send_answer_rejected [OF example_session t', where rnd = 0] by (simp add: t e)
  have r3: "handle_client_message example_conn sendanswer_msg
       (replicate 4300 CHR ''0'' @ ''1#2'') 0 example_store =
     Inr (True, example_store\<lparr>messages_to_send :=
            [(example_conn, Some ''ERROR           |0021|Invalid answer format'')]\<rparr>)"
    using send_answer_rejected [OF example_session n', where rnd = 0] by (simp add: n e)
  from r1 r2 r3 show ?thesis by (intro conjI)
qed

text \<open>
  C3, as amended. For an authenticated user and a question id of the bank, with data whose
  two \<open>#\<close>-separated fields \<open>int\<close> reads as the id and a choice: when the choice equals
  the stored correct index the user's score grows by exactly 5 and the reply is the
  CORRECT_ANSWER frame; with any other choice (those in 1 to 4 included), where the stored
  correct index is in 1 to 4 and points into the answer list, and the reply data (the
  correct index, a comma, the correct answer's text) has at most 9999 characters, the
  reply is the WRONG_ANSWER frame carrying that data, and nothing of the store changes but
  the queue.
\<close>

theorem send_answer_scored:
  assumes "getpeername conn = Some a" and "map_of (logged_users s) a = Some u"
    and "map_of (users s) u = Some ud"
    and "two_integers data = Some (q, c)" and "map_of (questions s) q = Some qd"
  shows "(c = correct qd \<longrightarrow>
            handle_client_message conn sendanswer_msg data rnd s =
              Inr (True,
                s\<lparr>users := AList.update u (ud\<lparr>score := score ud + 5\<rparr>) (users s),
                  messages_to_send := messages_to_send s @
                    [(conn, Some ''CORRECT_ANSWER  |0001|5'')]\<rparr>)) \<and>
         (c \<noteq> correct qd \<and> 1 \<le> correct qd \<and> correct qd \<le> 4 \<and>
          correct qd \<le> int (length (answers qd)) \<and>
          length (wrong_answer_data qd) \<le> 9999 \<longrightarrow>
            handle_client_message conn sendanswer_msg data rnd s =
              Inr (True,
                s\<lparr>messages_to_send := messages_to_send s @
                    [(conn, Some (''WRONG_ANSWER    |'' @
                                  zfill 4 (str_int (int (length (wrong_answer_data qd)))) @
                                  ''|'' @ wrong_answer_data qd))]\<rparr>))"
proof (intro conjI impI)
  assume "c = correct qd"
  with assms(3-5) show "handle_client_message conn sendanswer_msg data rnd s =
      Inr (True,
        s\<lparr>users := AList.update u (ud\<lparr>score := score ud + 5\<rparr>) (users s),
          messages_to_send := messages_to_send s @
            [(conn, Some ''CORRECT_ANSWER  |0001|5'')]\<rparr>)"
    by (simp add: dispatch_send_answer [OF assms(1,2)] handle_answer_message_cases
        build_and_send_message_def frame_correct)
next
  assume w: "c \<noteq> correct qd \<and> 1 \<le> correct qd \<and> correct qd \<le> 4 \<and>
      correct qd \<le> int (length (answers qd)) \<and> length (wrong_answer_data qd) \<le> 9999"
  then have "build_message wrong_msg (wrong_answer_data qd) =
      Some (''WRONG_ANSWER    |'' @ zfill 4 (str_int (int (length (wrong_answer_data qd)))) @
            ''|'' @ wrong_answer_data qd)"
    by (intro wrong_answer_frame) simp
  with w assms(3-5) show "handle_client_message conn sendanswer_msg data rnd s =
      Inr (True,
        s\<lparr>messages_to_send := messages_to_send s @
            [(conn, Some (''WRONG_ANSWER    |'' @
                          zfill 4 (str_int (int (length (wrong_answer_data qd)))) @
                          ''|'' @ wrong_answer_data qd))]\<rparr>)"
    by (simp add: dispatch_send_answer [OF assms(1,2)] handle_answer_message_cases
        build_and_send_message_def py_index_def wrong_answer_data_def)
qed

theorem send_answer_scored_witness:
  "handle_client_message example_conn sendanswer_msg ''1#2'' 0 example_store =
     Inr (True,
       example_store\<lparr>users := AList.update ''yossi''
           \<lparr>password = ''123'', score = 55, questions_asked = []\<rparr> (users example_store),
         messages_to_send := [(example_conn, Some ''CORRECT_ANSWER  |0001|5'')]\<rparr>) \<and>
   handle_client_message example_conn sendanswer_msg ''1#3'' 0 example_store =
     Inr (True,
       example_store\<lparr>messages_to_send :=
         [(example_conn, Some ''WRONG_ANSWER    |0003|2,4'')]\<rparr>)"
proof -
  have t1: "two_integers ''1#2'' = Some (1, 2)" by code_simp
  have t2: "two_integers ''1#3'' = Some (1, 3)" by code_simp
  have wd: "wrong_answer_data
      \<lparr>question = ''2 + 2 = ?'', answers = [''3'', ''4'', ''5'', ''6''], correct = 2\<rparr> = ''2,4''"
    by (simp add: wrong_answer_data_def str_int_examples)
  have z: "zfill 4 (str_int 3) = ''0003''" by code_simp
  have e: "messages_to_send example_store = []" by (simp add: example_store_def)
  have r1: "handle_client_message example_conn sendanswer_msg ''1#2'' 0 example_store =
     Inr (True,
       example_store\<lparr>users := AList.update ''yossi''
           \<lparr>password = ''123'', score = 55, questions_asked = []\<rparr> (users example_store),
         messages_to_send := [(example_conn, Some ''CORRECT_ANSWER  |0001|5'')]\<rparr>)"
    using send_answer_scored [OF example_session t1 example_question_1, where rnd = 0]
    by (simp add: e)
  have r2: "handle_client_message example_conn sendanswer_msg ''1#3'' 0 example_store =
     Inr (True,
       example_store\<lparr>messages_to_send :=
         [(example_conn, Some ''WRONG_ANSWER    |0003|2,4'')]\<rparr>)"
    using send_answer_scored [OF example_session t2 example_question_1, where rnd = 0]
    by (simp add: e wd z)
  from r1 r2 show ?thesis by (rule conjI)
qed

text \<open>
  C3, as stated, fails: the correct answer of question 1 is 9998 characters long, the
  reply data would be 10000, \<open>build_message\<close> refuses it, and what is queued for the wrong
  choice 2 is the \<open>None\<close> sentinel, not a WRONG_ANSWER frame.
\<close>

theorem long_answer_counterexample:
  "handle_client_message example_conn sendanswer_msg ''1#2'' 0 long_answer_store =
     Inr (True, long_answer_store\<lparr>messages_to_send := [(example_conn, None)]\<rparr>)"
proof -
  have l: "map_of (logged_users long_answer_store) example_addr = Some ''yossi''"
    by (simp add: long_answer_store_def example_defs)
  have u: "map_of (users long_answer_store) ''yossi'' =
      Some \<lparr>password = ''123'', score = 50, questions_asked = []\<rparr>"
    by (simp add: long_answer_store_def example_defs)
  have q: "map_of (questions long_answer_store) 1 =
      Some \<lparr>question = ''a?'', answers = [replicate 9998 CHR ''a'', ''b'', ''c'', ''d''],
            correct = 1\<rparr>"
    by (simp add: long_answer_store_def)
  have t: "two_integers ''1#2'' = Some (1, 2)" by code_simp
  have b: "build_message wrong_msg (''1,'' @ replicate 9998 CHR ''a'') = None"
    by (simp add: build_message_def MAX_DATA_LENGTH_def LENGTH_FIELD_LENGTH_def)
  have e: "messages_to_send long_answer_store = []"
    by (simp add: long_answer_store_def example_store_def)
  show ?thesis
    using b
    by (simp add: dispatch_send_answer [OF example_session(1) l] handle_answer_message_cases
        t q u py_index_def build_and_send_message_def str_int_examples e)
qed

text \<open>
  C9. SEND_ANSWER never looks at the user's asked-question list: for an authenticated user
  and any question id of the bank, whatever that list holds (the question need not have
  been issued), the correct answer (data that \<open>int\<close> reads as the id and the stored correct
  index) sent \<open>n\<close> times in a row adds 5 to the score each time, and leaves the rest of
  the user's record as it was.
\<close>

theorem repeated_answer_scores_again:
  assumes "getpeername conn = Some a" and "map_of (logged_users s) a = Some u"
    and "map_of (users s) u = Some ud"
    and "two_integers data = Some (q, correct qd)" and "map_of (questions s) q = Some qd"
  shows "map_of (users (run s (replicate n (Command conn sendanswer_msg data rnd)))) u =
           Some (ud\<lparr>score := score ud + 5 * int n\<rparr>)"
  using assms(2,3,5)
proof (induction n arbitrary: s ud)
  case 0
  then show ?case by (simp add: run_def)
next
  case (Suc n)
  define e where "e = Command conn sendanswer_msg data rnd"
  define s1 where "s1 = step s e"
  have s1: "s1 = s\<lparr>users := AList.update u (ud\<lparr>score := score ud + 5\<rparr>) (users s),
             messages_to_send := messages_to_send s @
               [(conn, Some ''CORRECT_ANSWER  |0001|5'')]\<rparr>"
    unfolding s1_def e_def
    by (rule answer_correct_step [OF assms(1) Suc.prems(1,2) assms(4) Suc.prems(3)])
  have l: "map_of (logged_users s1) a = Some u" using Suc.prems(1) by (simp add: s1)
  have u: "map_of (users s1) u = Some (ud\<lparr>score := score ud + 5\<rparr>)"
    by (simp add: s1 AList.update_conv')
  have q: "map_of (questions s1) q = Some qd" using Suc.prems(3) by (simp add: s1)
  have "map_of (users (run s1 (replicate n e))) u =
      Some (ud\<lparr>score := score ud + 5\<rparr>\<lparr>score := score (ud\<lparr>score := score ud + 5\<rparr>) + 5 * int n\<rparr>)"
    unfolding e_def by (rule Suc.IH [OF l u q])
  moreover have "run s (replicate (Suc n) e) = run s1 (replicate n e)"
    by (simp only: replicate_Suc run_Cons s1_def)
  ultimately show ?case by (simp add: e_def algebra_simps)
qed

theorem repeated_answer_scores_again_witness:
  "map_of (users (run example_store
      (replicate 3 (Command example_conn sendanswer_msg ''1#2'' 0)))) ''yossi'' =
     Some \<lparr>password = ''123'', score = 65, questions_asked = []\<rparr>"
proof -
  have "two_integers ''1#2'' = Some (1, 2)" by code_simp
  then have t: "two_integers ''1#2'' =
      Some (1, correct \<lparr>question = ''2 + 2 = ?'', answers = [''3'', ''4'', ''5'', ''6''],
                         correct = 2\<rparr>)" by simp
  show ?thesis
    using repeated_answer_scores_again [OF example_session t example_question_1,
        where n = 3 and rnd = 0]
    by simp
qed

text \<open>
  C2, as amended. For an authenticated user whose asked-question list already holds every
  question id of the bank (the empty bank included), GET_QUESTION is answered with an ERROR
  frame with the text \<open>No more questions available\<close>, and the store is otherwise
  unchanged; the same holds after any further steps of the server, whenever the connection
  is logged in as that user, since no step changes the bank or removes an asked id.
\<close>

theorem exhausted_bank_answers_error:
  assumes "map_of (users s) u = Some ud"
    and "fst ` set (questions s) \<subseteq> set (questions_asked ud)"
    and "getpeername conn = Some a"
    and "map_of (logged_users (run s es)) a = Some u"
  shows "handle_client_message conn getquestion_msg data rnd (run s es) =
           Inr (True, (run s es)\<lparr>messages_to_send := messages_to_send (run s es) @
                  [(conn, Some ''ERROR           |0027|No more questions available'')]\<rparr>)"
proof -
  have e: "evolves s (run s es)" by (rule evolves_run)
  then obtain ud' where u': "map_of (users (run s es)) u = Some ud'"
    and sub: "set (questions_asked ud) \<subseteq> set (questions_asked ud')"
    using assms(1) by (rule evolves_user)
  from e have "questions (run s es) = questions s" by (simp add: evolves_def)
  with assms(2) sub have "fst ` set (questions (run s es)) \<subseteq> set (questions_asked ud')"
    by simp
  with u' have "create_random_question u rnd (run s es) = Inr None" by (rule picker_none)
  then show ?thesis
    by (simp add: dispatch_get_question [OF assms(3,4)] handle_question_message_def
        build_and_send_message_def frame_no_more)
qed

theorem exhausted_bank_answers_error_witness:
  "handle_client_message example_conn getquestion_msg [] 0
     (run exhausted_store [Command example_conn getquestion_msg [] 7]) =
     Inr (True, (run exhausted_store [Command example_conn getquestion_msg [] 7])
            \<lparr>messages_to_send :=
               messages_to_send (run exhausted_store [Command example_conn getquestion_msg [] 7]) @
               [(example_conn, Some ''ERROR           |0027|No more questions available'')]\<rparr>)"
proof -
  have "create_random_question ''yossi'' 7 exhausted_store = Inr None"
    by (rule picker_none [OF exhausted_session(1) exhausted_session(2)])
  then have "step exhausted_store (Command example_conn getquestion_msg [] 7) =
      build_and_send_message example_conn error_msg ''No more questions available''
        exhausted_store"
    by (simp add: dispatch_get_question [OF example_session(1) exhausted_session(3)]
        handle_question_message_def)
  then have l: "map_of (logged_users
      (run exhausted_store [Command example_conn getquestion_msg [] 7])) example_addr =
      Some ''yossi''"
    by (simp add: run_def exhausted_session(3))
  show ?thesis
    by (rule exhausted_bank_answers_error
        [OF exhausted_session(1) exhausted_session(2) example_session(1) l])
qed

text \<open>
  C2, as stated, fails: with both questions of the bank already asked, the reply to
  GET_QUESTION decodes to the command ERROR, which is not NO_QUESTIONS.
\<close>

theorem no_questions_counterexample:
  "handle_client_message example_conn getquestion_msg [] 0 exhausted_store =
     Inr (True, exhausted_store\<lparr>messages_to_send :=
            [(example_conn, Some ''ERROR           |0027|No more questions available'')]\<rparr>) \<and>
   parse_message ''ERROR           |0027|No more questions available'' =
     Inr (Some (error_msg, ''No more questions available'')) \<and>
   error_msg \<noteq> noquestions_msg"
proof -
  have "create_random_question ''yossi'' 0 exhausted_store = Inr None"
    by (rule picker_none [OF exhausted_session(1) exhausted_session(2)])
  then have "handle_client_message example_conn getquestion_msg [] 0 exhausted_store =
     Inr (True, exhausted_store\<lparr>messages_to_send :=
            [(example_conn, Some ''ERROR           |0027|No more questions available'')]\<rparr>)"
    by (simp add: dispatch_get_question [OF example_session(1) exhausted_session(3)]
        handle_question_message_def build_and_send_message_def frame_no_more)
      (simp add: example_defs)
  moreover have "parse_message ''ERROR           |0027|No more questions available'' =
     Inr (Some (error_msg, ''No more questions available''))" by code_simp
  moreover have "error_msg \<noteq> noquestions_msg" by (simp add: protocol_defs)
  ultimately show ?thesis by (intro conjI)
qed



text \<open>
  C4. The claim asks that a correct SEND_ANSWER saves the users before the handler returns.
  In the example store the file is up to date; yossi answers question 1 correctly: the
  score becomes 55, the text of \<open>users.txt\<close> is what it was, and it is no longer what
  \<open>save_user_database\<close> would write.
\<close>

theorem correct_answer_not_saved:
  "map_sum id
     (\<lambda>(alive, s'). (map_of (users s') ''yossi'',
                      users_txt s' = users_txt example_store,
                      users_txt (save_user_database s') = users_txt s'))
     (handle_client_message example_conn sendanswer_msg ''1#2'' 0 example_store) =
   Inr (Some \<lparr>password = ''123'', score = 55, questions_asked = []\<rparr>, True, False) \<and>
   users_txt (save_user_database example_store) = users_txt example_store"
proof -
  have t: "two_integers ''1#2'' = Some (1, 2)" by code_simp
  have h: "handle_client_message example_conn sendanswer_msg ''1#2'' 0 example_store =
      Inr (True, build_and_send_message example_conn correct_msg ''5''
        (example_store\<lparr>users := AList.update ''yossi''
           \<lparr>password = ''123'', score = 55, questions_asked = []\<rparr> (users example_store)\<rparr>))"
    by (simp add: dispatch_send_answer [OF example_session(1,2)] handle_answer_message_cases t
        example_question_1 example_session(3))
  have "users_txt (save_user_database example_store) = users_txt example_store"
    by (simp add: save_user_database_def example_store_def)
  then show ?thesis
    by (simp add: h save_user_database_def AList.update_conv')
      (simp add: example_defs user_line_def join_on_def str_int_examples)
qed

end
